theory Spec2Isabelle
  imports Complex_Main "HOL-Library.Log_Nat"
begin

section \<open>Python values, exceptions and the built-ins the formatter calls\<close>

text \<open>
  The scalar drawn from a table cell is a Python \<^verbatim>\<open>int\<close>, \<^verbatim>\<open>float\<close> or \<^verbatim>\<open>str\<close>.
  Python integers are unbounded, so they are \<^typ>\<open>int\<close>. A float is represented by the
  real number it denotes: binary64 representation error, infinities and NaN are outside
  this model. Strings are ASCII (one \<^typ>\<open>char\<close> per code point).
\<close>

datatype pyval = PyInt int | PyFloat real | PyStr string

datatype exn = ValueError | IndexError | TypeError

fun is_int :: "pyval \<Rightarrow> bool" where
  "is_int (PyInt _) = True"
| "is_int _ = False"

subsection \<open>Decimal rendering of integers\<close>

definition digit_char :: "nat \<Rightarrow> char" where
  "digit_char d = ''0123456789'' ! (d mod 10)"

fun str_nat :: "nat \<Rightarrow> string" where
  "str_nat n = (if n < 10 then [digit_char n] else str_nat (n div 10) @ [digit_char (n mod 10)])"

declare str_nat.simps [simp del]

text \<open>\<^verbatim>\<open>str(i)\<close> for an integer: an optional minus sign and the decimal digits.\<close>

definition str_int :: "int \<Rightarrow> string" where
  "str_int i = (if i < 0 then ''-'' else '''') @ str_nat (nat \<bar>i\<bar>)"

text \<open>
  Grouping of a digit string in threes from the right, as the \<^verbatim>\<open>','\<close> option does:
  a comma after every third digit of the reversed string that has a digit after it.
\<close>

fun group3_rev :: "string \<Rightarrow> string" where
  "group3_rev (a # b # c # d # ds) = a # b # c # CHR '','' # group3_rev (d # ds)"
| "group3_rev ds = ds"

definition group3 :: "string \<Rightarrow> string" where
  "group3 ds = rev (group3_rev (rev ds))"

text \<open>\<^verbatim>\<open>format(i, ',')\<close> for an integer.\<close>

definition format_thousands :: "int \<Rightarrow> string" where
  "format_thousands i = (if i < 0 then ''-'' else '''') @ group3 (str_nat (nat \<bar>i\<bar>))"

text \<open>
  \<^verbatim>\<open>int(c)\<close> for a one-character string: the value of a decimal digit, ValueError for
  any other character.
\<close>

definition int_of_char :: "char \<Rightarrow> exn + int" where
  "int_of_char c =
     (case map_of [(CHR ''0'', 0), (CHR ''1'', 1), (CHR ''2'', 2), (CHR ''3'', 3), (CHR ''4'', 4),
                   (CHR ''5'', 5), (CHR ''6'', 6), (CHR ''7'', 7), (CHR ''8'', 8), (CHR ''9'', 9)] c of
        None \<Rightarrow> Inl ValueError
      | Some d \<Rightarrow> Inr d)"

subsection \<open>Rounding\<close>

text \<open>
  \<^verbatim>\<open>round(x, ndigits)\<close> on an integer (Python 3): \<^verbatim>\<open>x\<close> itself when \<^verbatim>\<open>ndigits\<close> is not
  negative, otherwise the multiple of \<^verbatim>\<open>10 ** -ndigits\<close> nearest to \<^verbatim>\<open>x\<close>, a tie going
  to the even quotient.
\<close>

definition py_round_int :: "int \<Rightarrow> int \<Rightarrow> int" where
  "py_round_int x ndigits =
     (if ndigits \<ge> 0 then x
      else let p = 10 ^ nat (- ndigits); q = x div p; r = x mod p
           in if 2 * r < p \<or> (2 * r = p \<and> even q) then x - r else x - r + p)"

text \<open>Rounding of a real to the nearest integer, a tie going to the even one.\<close>

definition round_half_even :: "real \<Rightarrow> int" where
  "round_half_even y =
     (let f = \<lfloor>y\<rfloor>; d = y - of_int f
      in if d < 1 / 2 \<or> (d = 1 / 2 \<and> even f) then f else f + 1)"

text \<open>
  \<^verbatim>\<open>round(x, ndigits)\<close> on a float, on the real it denotes: the multiple of
  \<^verbatim>\<open>10 ** -ndigits\<close> nearest to \<^verbatim>\<open>x\<close>.
\<close>

definition py_round_float :: "real \<Rightarrow> int \<Rightarrow> real" where
  "py_round_float x ndigits =
     (if ndigits \<ge> 0 then of_int (round_half_even (x * 10 ^ nat ndigits)) / 10 ^ nat ndigits
      else of_int (round_half_even (x / 10 ^ nat (- ndigits))) * 10 ^ nat (- ndigits))"

text \<open>
  \<^verbatim>\<open>int(floor(log10(n)))\<close> for a positive integer \<^verbatim>\<open>n\<close>: one less than its number of
  decimal digits. The source computes the logarithm in floating point; here it is exact.
\<close>

fun floor_log10 :: "nat \<Rightarrow> int" where
  "floor_log10 n = (if n < 10 then 0 else 1 + floor_log10 (n div 10))"

declare floor_log10.simps [simp del]

text \<open>
  \<^verbatim>\<open>int(floor(log10(x)))\<close> for a positive float \<^verbatim>\<open>x\<close>, on the real it denotes. It is
  kept out of the code equations: the real logarithm does not compute.
\<close>

definition floor_log10_real :: "real \<Rightarrow> int" where
  "floor_log10_real x = \<lfloor>log 10 x\<rfloor>"


text \<open>
  \<^verbatim>\<open>round_to_n = lambda x, n: round(x, -int(floor(log10(abs(x)))) + (n - 1))\<close>.
  \<^verbatim>\<open>log10(0)\<close> raises ValueError and \<^verbatim>\<open>abs\<close> of a string raises TypeError.
\<close>

fun round_to_n :: "pyval \<Rightarrow> int \<Rightarrow> exn + pyval" where
  "round_to_n (PyInt x) n =
     (if x = 0 then Inl ValueError
      else Inr (PyInt (py_round_int x (- floor_log10 (nat \<bar>x\<bar>) + (n - 1)))))"
| "round_to_n (PyFloat x) n =
     (if x = 0 then Inl ValueError
      else Inr (PyFloat (py_round_float x (- floor_log10_real \<bar>x\<bar> + (n - 1)))))"
| "round_to_n (PyStr s) n = Inl TypeError"

subsection \<open>The built-in \<^verbatim>\<open>format\<close>\<close>

text \<open>
  The formatter hands the value to Python's built-in \<^verbatim>\<open>format\<close>. The cases its own
  defaults reach on integers and strings are written out; the rendering of floats and
  every other format specification are supplied by the host.
\<close>

record host =
  float_str :: "real \<Rightarrow> string"
  float_fixed :: "real \<Rightarrow> string"
  format_other :: "pyval \<Rightarrow> string \<Rightarrow> exn + string"

text \<open>\<^verbatim>\<open>str(value)\<close>, which is also \<^verbatim>\<open>format(value, '')\<close>.\<close>

fun py_str :: "host \<Rightarrow> pyval \<Rightarrow> string" where
  "py_str h (PyInt i) = str_int i"
| "py_str h (PyFloat x) = float_str h x"
| "py_str h (PyStr s) = s"

fun py_format :: "host \<Rightarrow> pyval \<Rightarrow> string \<Rightarrow> exn + string" where
  "py_format h v [] = Inr (py_str h v)"
| "py_format h (PyInt i) spec =
     (if spec = '','' then Inr (format_thousands i) else format_other h (PyInt i) spec)"
| "py_format h (PyFloat x) spec =
     (if spec = ''f'' then Inr (float_fixed h x) else format_other h (PyFloat x) spec)"
| "py_format h (PyStr s) spec =
     (if spec = ''s'' then Inr s else format_other h (PyStr s) spec)"

text \<open>A host that rejects every format specification not written out above.\<close>

definition strict_host :: host where
  "strict_host = \<lparr>float_str = (\<lambda>x. ''float''), float_fixed = (\<lambda>x. ''float''),
                  format_other = (\<lambda>v spec. Inl ValueError)\<rparr>"

section \<open>The value formatter\<close>

text \<open>
  Lines 22 to 35 of \<^verbatim>\<open>_do_formatting\<close>: the value and the format specification that
  reach the \<^verbatim>\<open>try\<close> statement. The second \<^verbatim>\<open>if\<close> of the \<^verbatim>\<open>'.'\<close> branch is not an
  \<^verbatim>\<open>else\<close>: it runs after the rounding branch too.
\<close>

definition format_args :: "pyval \<Rightarrow> string \<Rightarrow> exn + (pyval \<times> string)" where
  "format_args value format_str =
     (if format_str = [] then
        (case value of
           PyInt _ \<Rightarrow> Inr (value, '','')
         | PyFloat _ \<Rightarrow> Inr (value, ''f'')
         | PyStr _ \<Rightarrow> Inr (value, ''s''))
      else if hd format_str = CHR ''.'' then
        (case (if last format_str = CHR ''R'' \<and> is_int value then
                 (if length format_str < 2 then Inl IndexError
                  else case int_of_char (format_str ! 1) of
                         Inl e \<Rightarrow> Inl e
                       | Inr n \<Rightarrow> (case round_to_n value n of
                                     Inl e \<Rightarrow> Inl e
                                   | Inr v \<Rightarrow> Inr (v, '','')))
               else Inr (value, format_str)) of
           Inl e \<Rightarrow> Inl e
         | Inr (v, f) \<Rightarrow> if last f = CHR ''G'' then Inr (v, f) else Inr (v, f @ ''G''))
      else Inr (value, format_str))"

text \<open>
  The whole of \<^verbatim>\<open>_do_formatting\<close>: an exception of \<^verbatim>\<open>format\<close> is caught and replaced
  by \<^verbatim>\<open>format(value, '')\<close>; an exception raised before the \<^verbatim>\<open>try\<close> is not.
\<close>

definition do_formatting :: "host \<Rightarrow> pyval \<Rightarrow> string \<Rightarrow> exn + string" where
  "do_formatting h value format_str =
     (case format_args value format_str of
        Inl e \<Rightarrow> Inl e
      | Inr (v, f) \<Rightarrow> (case py_format h v f of
                        Inr s \<Rightarrow> Inr s
                      | Inl _ \<Rightarrow> py_format h v []))"

section \<open>Data frames, slides and tables\<close>

text \<open>
  A data frame: the row labels, the column labels and the matrix of values, row by row.
  Labels are strings. \<^verbatim>\<open>df.shape\<close> is the number of row labels and of column labels.
\<close>

record dataframe =
  df_index :: "string list"
  df_columns :: "string list"
  df_values :: "pyval list list"

definition df_shape :: "dataframe \<Rightarrow> nat \<times> nat" where
  "df_shape df = (length (df_index df), length (df_columns df))"


text \<open>\<^verbatim>\<open>m[row, col]\<close> on \<^verbatim>\<open>m = df.as_matrix()\<close>; IndexError outside the matrix.\<close>

definition matrix_get :: "dataframe \<Rightarrow> nat \<Rightarrow> nat \<Rightarrow> exn + pyval" where
  "matrix_get df row col =
     (if row < length (df_values df) \<and> col < length (df_values df ! row)
      then Inr (df_values df ! row ! col) else Inl IndexError)"

text \<open>
  A position or size argument: \<^verbatim>\<open>None\<close>, a Python \<^verbatim>\<open>int\<close>, a \<^verbatim>\<open>pptx.util.Length\<close> (in
  English Metric Units) or any other object. \<^verbatim>\<open>Cm(n)\<close> is the length of \<open>n\<close> centimetres,
  360000 units each.
\<close>

datatype posparam = PNone | PInt int | PLength int | POther string

definition Cm :: "int \<Rightarrow> posparam" where
  "Cm n = PLength (n * 360000)"

fun process_position_parameter :: "posparam \<Rightarrow> posparam" where
  "process_position_parameter PNone = Cm 4"
| "process_position_parameter (PInt n) = Cm n"
| "process_position_parameter p = p"

text \<open>
  A table cell of the presentation library: its text and the properties of its first
  paragraph and of its fill that \<^verbatim>\<open>df_to_table\<close> assigns. \<open>None\<close> is a property the
  library has left at its default.
\<close>

type_synonym rgb = "nat \<times> nat \<times> nat"

datatype align = CENTER | LEFT

datatype fit = SHAPE_TO_FIT_TEXT

datatype fill_format = NoFill | SolidFill "rgb option"

record cell =
  cell_text :: string
  cell_auto_size :: "fit option"
  cell_bold :: "bool option"
  cell_font_size :: "int option"
  cell_font_name :: "string option"
  cell_color :: "rgb option"
  cell_alignment :: "align option"
  cell_fill :: fill_format

definition empty_cell :: cell where
  "empty_cell = \<lparr>cell_text = '''', cell_auto_size = None, cell_bold = None,
                  cell_font_size = None, cell_font_name = None, cell_color = None,
                  cell_alignment = None, cell_fill = NoFill\<rparr>"

text \<open>
  The graphic frame that \<^verbatim>\<open>add_table\<close> returns, with its table: the grid of cells is
  addressed by (row, column), the columns by their index. A column width or height is
  \<open>None\<close> until it is assigned.
\<close>

record shape =
  shape_name :: "string option"
  shape_left :: posparam
  shape_top :: posparam
  shape_width :: posparam
  shape_height :: posparam
  table_rows :: nat
  table_cols :: nat
  table_cells :: "nat \<times> nat \<Rightarrow> cell"
  column_width :: "nat \<Rightarrow> posparam option"
  column_height :: "nat \<Rightarrow> posparam option"

definition add_table ::
  "nat \<Rightarrow> nat \<Rightarrow> posparam \<Rightarrow> posparam \<Rightarrow> posparam \<Rightarrow> posparam \<Rightarrow> shape" where
  "add_table rows cols x y cx cy =
     \<lparr>shape_name = None, shape_left = x, shape_top = y, shape_width = cx,
      shape_height = cy, table_rows = rows, table_cols = cols,
      table_cells = (\<lambda>k. empty_cell), column_width = (\<lambda>i. None),
      column_height = (\<lambda>i. None)\<rparr>"

text \<open>
  The world \<^verbatim>\<open>df_to_table\<close> runs in: the data frame and the shapes of the slide. The
  handle of a shape is its position in the slide.
\<close>

record world =
  w_df :: dataframe
  w_slide :: "shape list"

subsection \<open>Statements that may raise\<close>

text \<open>
  A statement maps a state to the exception it raised, if any, and the state it left:
  an exception keeps what was mutated before it.
\<close>

type_synonym 's cmd = "'s \<Rightarrow> exn option \<times> 's"

definition skip :: "'s cmd" where
  "skip s = (None, s)"

definition raise :: "exn \<Rightarrow> 's cmd" where
  "raise e s = (Some e, s)"

fun for_each :: "'a list \<Rightarrow> ('a \<Rightarrow> 's cmd) \<Rightarrow> 's cmd" where
  "for_each [] body s = (None, s)"
| "for_each (x # xs) body s =
     (case body x s of
        (None, s') \<Rightarrow> for_each xs body s'
      | (Some e, s') \<Rightarrow> (Some e, s'))"

text \<open>A block of statements, run in order.\<close>

definition block :: "'s cmd list \<Rightarrow> 's cmd" where
  "block cs = for_each cs (\<lambda>c. c)"

definition run_if :: "bool \<Rightarrow> 's cmd \<Rightarrow> 's cmd" where
  "run_if b c = (if b then c else skip)"

text \<open>
  \<^verbatim>\<open>shp.table.cell(r, c)\<close> followed by assignments to the cell: IndexError outside the
  grid.
\<close>

definition modify_cell :: "nat \<Rightarrow> nat \<Rightarrow> (cell \<Rightarrow> cell) \<Rightarrow> shape cmd" where
  "modify_cell r c f s =
     (if r < table_rows s \<and> c < table_cols s
      then (None, s\<lparr>table_cells := (table_cells s)((r, c) := f (table_cells s (r, c)))\<rparr>)
      else (Some IndexError, s))"

definition set_text :: "string \<Rightarrow> cell \<Rightarrow> cell" where
  "set_text t cl = cl\<lparr>cell_text := t\<rparr>"

text \<open>\<^verbatim>\<open>shp.table.columns[i].width = w\<close> and the same for \<^verbatim>\<open>height\<close>.\<close>

definition set_column_width :: "nat \<Rightarrow> posparam \<Rightarrow> shape cmd" where
  "set_column_width i w s =
     (if i < table_cols s then (None, s\<lparr>column_width := (column_width s)(i := Some w)\<rparr>)
      else (Some IndexError, s))"

definition set_column_height :: "nat \<Rightarrow> posparam \<Rightarrow> shape cmd" where
  "set_column_height i w s =
     (if i < table_cols s then (None, s\<lparr>column_height := (column_height s)(i := Some w)\<rparr>)
      else (Some IndexError, s))"

definition set_name :: "string option \<Rightarrow> shape cmd" where
  "set_name name s = (case name of None \<Rightarrow> (None, s) | Some n \<Rightarrow> (None, s\<lparr>shape_name := Some n\<rparr>))"

subsection \<open>What a statement keeps and when it succeeds\<close>

text \<open>A statement keeps an observation when no run of it changes the observation.\<close>

definition keeps :: "('s \<Rightarrow> 'o) \<Rightarrow> 's cmd \<Rightarrow> bool" where
  "keeps obs c \<longleftrightarrow> (\<forall>s. obs (snd (c s)) = obs s)"

text \<open>A statement is safe on \<open>P\<close> when from a state in \<open>P\<close> it raises nothing and stays in \<open>P\<close>.\<close>

definition ok_on :: "('s \<Rightarrow> bool) \<Rightarrow> 's cmd \<Rightarrow> bool" where
  "ok_on P c \<longleftrightarrow> (\<forall>s. P s \<longrightarrow> fst (c s) = None \<and> P (snd (c s)))"

text \<open>The observations of a shape: its frame, the texts of its cells, its grid size.\<close>

definition frame :: "shape \<Rightarrow> posparam \<times> posparam \<times> posparam \<times> posparam \<times> nat \<times> nat" where
  "frame s = (shape_left s, shape_top s, shape_width s, shape_height s, table_rows s, table_cols s)"

definition texts :: "shape \<Rightarrow> nat \<times> nat \<Rightarrow> string" where
  "texts s k = cell_text (table_cells s k)"

definition grid :: "nat \<Rightarrow> nat \<Rightarrow> shape \<Rightarrow> bool" where
  "grid r c s \<longleftrightarrow> table_rows s = r \<and> table_cols s = c"

section \<open>\<^verbatim>\<open>df_to_table\<close>\<close>

text \<open>The keyword arguments of \<^verbatim>\<open>df_to_table\<close>; \<^verbatim>\<open>rounding\<close> is accepted and never read.\<close>

record args =
  arg_left :: posparam
  arg_top :: posparam
  arg_width :: posparam
  arg_height :: posparam
  arg_colnames :: "string list option"
  arg_rownames :: "string list option"
  arg_col_formatters :: "string list option"
  arg_rounding :: "int list option"
  arg_name :: "string option"
  arg_white_backgr :: bool
  arg_transposed :: bool
  arg_font_size :: int
  arg_set_col_width :: bool
  arg_col_width :: "posparam list"
  arg_set_col_height :: bool
  arg_col_height :: "posparam list"

text \<open>
  The text of a data cell (lines 120 to 124 and 172 to 177): \<^verbatim>\<open>str(val)\<close> without
  \<^verbatim>\<open>col_formatters\<close>, otherwise \<^verbatim>\<open>_do_formatting(val, col_formatters[col])\<close>.
\<close>

definition cell_text_of :: "host \<Rightarrow> dataframe \<Rightarrow> string list option \<Rightarrow> nat \<Rightarrow> nat \<Rightarrow> exn + string" where
  "cell_text_of h df col_formatters row col =
     (case matrix_get df row col of
        Inl e \<Rightarrow> Inl e
      | Inr val \<Rightarrow>
          (case col_formatters of
             None \<Rightarrow> Inr (py_str h val)
           | Some fs \<Rightarrow> if col < length fs then do_formatting h val (fs ! col)
                        else Inl IndexError))"

text \<open>Writing a text, or raising what its computation raised, at the cell a key maps to.\<close>

definition write_text :: "('a \<Rightarrow> exn + string) \<Rightarrow> ('a \<Rightarrow> nat \<times> nat) \<Rightarrow> 'a \<Rightarrow> shape cmd" where
  "write_text v key x =
     (case v x of
        Inl e \<Rightarrow> raise e
      | Inr t \<Rightarrow> modify_cell (fst (key x)) (snd (key x)) (set_text t))"

text \<open>The style sheet: every cell, the row labels and first-row fill of a transposed
  table, the column headers of a vertical one.\<close>

definition plain_style :: "int \<Rightarrow> cell \<Rightarrow> cell" where
  "plain_style fs cl =
     cl\<lparr>cell_auto_size := Some SHAPE_TO_FIT_TEXT, cell_bold := Some False,
        cell_font_size := Some fs, cell_font_name := Some ''Calibri'',
        cell_color := Some (0, 0, 0), cell_alignment := Some CENTER\<rparr>"

definition row_label_style :: "int \<Rightarrow> cell \<Rightarrow> cell" where
  "row_label_style fs cl =
     cl\<lparr>cell_fill := SolidFill (Some (79, 129, 189)), cell_bold := Some True,
        cell_font_size := Some fs, cell_font_name := Some ''Calibri'',
        cell_color := Some (0, 0, 0), cell_alignment := Some LEFT\<rparr>"

definition first_row_fill :: "cell \<Rightarrow> cell" where
  "first_row_fill cl = cl\<lparr>cell_fill := SolidFill (Some (233, 237, 244))\<rparr>"

definition header_style :: "int \<Rightarrow> cell \<Rightarrow> cell" where
  "header_style fs cl =
     cl\<lparr>cell_bold := Some True, cell_font_size := Some fs,
        cell_font_name := Some ''Calibri'', cell_color := Some (0, 0, 0),
        cell_alignment := Some CENTER\<rparr>"

text \<open>Lines 109 to 155, after \<^verbatim>\<open>add_table(rows, cols + 1, ...)\<close>.\<close>

definition transposed_body :: "host \<Rightarrow> dataframe \<Rightarrow> args \<Rightarrow> shape cmd" where
  "transposed_body h df a =
     (let rows = fst (df_shape df); cols = snd (df_shape df);
          rownames = (case arg_rownames a of None \<Rightarrow> df_index df | Some ns \<Rightarrow> ns)
      in block
        [for_each (enumerate 0 rownames) (write_text (\<lambda>(i, n). Inr n) (\<lambda>(i, n). (i, 0))),
         for_each [0..<rows] (\<lambda>row. for_each [0..<cols]
           (\<lambda>col. write_text (\<lambda>(r, c). cell_text_of h df (arg_col_formatters a) r c)
                               (\<lambda>(r, c). (r, c + 1)) (row, col))),
         set_name (arg_name a),
         run_if (\<not> arg_white_backgr a) (block
           [for_each [0..<rows] (\<lambda>i. for_each [0..<cols + 1]
              (\<lambda>j. modify_cell i j (plain_style (arg_font_size a)))),
            for_each [0..<rows] (\<lambda>i. modify_cell i 0 (row_label_style (arg_font_size a))),
            for_each [0..<cols] (\<lambda>j. modify_cell 0 (j + 1) first_row_fill)])])"

text \<open>Lines 161 to 202, after \<^verbatim>\<open>add_table(rows + 1, cols, ...)\<close>.\<close>

definition vertical_body :: "host \<Rightarrow> dataframe \<Rightarrow> args \<Rightarrow> shape cmd" where
  "vertical_body h df a =
     (let rows = fst (df_shape df); cols = snd (df_shape df);
          colnames = (case arg_colnames a of None \<Rightarrow> df_columns df | Some ns \<Rightarrow> ns)
      in block
        [for_each (enumerate 0 colnames) (write_text (\<lambda>(i, n). Inr n) (\<lambda>(i, n). (0, i))),
         for_each [0..<rows] (\<lambda>row. for_each [0..<cols]
           (\<lambda>col. write_text (\<lambda>(r, c). cell_text_of h df (arg_col_formatters a) r c)
                               (\<lambda>(r, c). (r + 1, c)) (row, col))),
         set_name (arg_name a),
         run_if (\<not> arg_white_backgr a) (block
           [for_each [0..<rows + 1] (\<lambda>i. for_each [0..<cols]
              (\<lambda>j. modify_cell i j (plain_style (arg_font_size a)))),
            for_each [0..<cols] (\<lambda>j. modify_cell 0 j (header_style (arg_font_size a)))])])"

text \<open>Lines 204 to 210: the column widths and heights the caller supplied.\<close>

definition assign_col_widths :: "posparam list \<Rightarrow> shape cmd" where
  "assign_col_widths ws = for_each [0..<length ws] (\<lambda>i. set_column_width i (ws ! i))"

definition assign_col_heights :: "posparam list \<Rightarrow> shape cmd" where
  "assign_col_heights hs = for_each [0..<length hs] (\<lambda>i. set_column_height i (hs ! i))"

text \<open>
  The statements run on the new shape, and the shape \<^verbatim>\<open>add_table\<close> put on the slide
  before them.
\<close>

definition table_body :: "host \<Rightarrow> dataframe \<Rightarrow> args \<Rightarrow> shape cmd" where
  "table_body h df a =
     block [if arg_transposed a then transposed_body h df a else vertical_body h df a,
            run_if (arg_set_col_width a) (assign_col_widths (arg_col_width a)),
            run_if (arg_set_col_height a) (assign_col_heights (arg_col_height a))]"

definition new_table :: "dataframe \<Rightarrow> args \<Rightarrow> shape" where
  "new_table df a =
     (let left' = process_position_parameter (arg_left a);
          top' = process_position_parameter (arg_top a);
          width' = process_position_parameter (arg_width a);
          height' = process_position_parameter (arg_height a);
          rows = fst (df_shape df); cols = snd (df_shape df)
      in if arg_transposed a then add_table rows (cols + 1) left' top' width' height'
         else add_table (rows + 1) cols left' top' width' height')"

text \<open>
  \<^verbatim>\<open>df_to_table(slide, df, ...)\<close>: the result is the handle of the new shape, or the
  exception raised; the world holds the slide with the new shape as the statements left
  it.
\<close>

definition df_to_table :: "host \<Rightarrow> args \<Rightarrow> world \<Rightarrow> (exn + nat) \<times> world" where
  "df_to_table h a w =
     (case table_body h (w_df w) a (new_table (w_df w) a) of
        (r, shp) \<Rightarrow>
          ((case r of None \<Rightarrow> Inr (length (w_slide w)) | Some e \<Rightarrow> Inl e),
           w\<lparr>w_slide := w_slide w @ [shp]\<rparr>))"

text \<open>The default values of the keyword arguments, as the signature gives them.\<close>

definition default_args :: args where
  "default_args =
     \<lparr>arg_left = PNone, arg_top = PNone, arg_width = PNone, arg_height = PNone,
      arg_colnames = None, arg_rownames = None, arg_col_formatters = None,
      arg_rounding = None, arg_name = None, arg_white_backgr = False,
      arg_transposed = False, arg_font_size = 14, arg_set_col_width = False,
      arg_col_width = [], arg_set_col_height = False, arg_col_height = []\<rparr>"

text \<open>A two-by-two data frame of integers on an empty slide.\<close>

definition example_df :: dataframe where
  "example_df = \<lparr>df_index = [''r0'', ''r1''], df_columns = [''c0'', ''c1''],
                 df_values = [[PyInt 1000, PyInt 2], [PyInt 3, PyInt 4]]\<rparr>"

definition example_world :: world where
  "example_world = \<lparr>w_df = example_df, w_slide = []\<rparr>"

section \<open>Properties of the rounding helpers\<close>







lemma format_thousands_million: "format_thousands 1234567 = ''1,234,567''"
  by (simp add: format_thousands_def group3_def str_nat.simps digit_char_def)

lemma format_thousands_negative: "format_thousands (- 1000) = ''-1,000''"
  by (simp add: format_thousands_def group3_def str_nat.simps digit_char_def)

lemma format_thousands_small: "format_thousands 999 = ''999''"
  by (simp add: format_thousands_def group3_def str_nat.simps digit_char_def)

lemma str_int_negative: "str_int (- 1000) = ''-1000''"
  by (simp add: str_int_def str_nat.simps digit_char_def)

section \<open>Properties of the value formatter\<close>

lemma format_args_empty:
  "format_args (PyInt i) [] = Inr (PyInt i, '','')"
  "format_args (PyFloat x) [] = Inr (PyFloat x, ''f'')"
  "format_args (PyStr s) [] = Inr (PyStr s, ''s'')"
  by (simp_all add: format_args_def)

text \<open>The formatter raises exactly when the steps before the \<^verbatim>\<open>try\<close> raise.\<close>

lemma do_formatting_Inl_iff:
  "do_formatting h v f = Inl e \<longleftrightarrow> format_args v f = Inl e"
  by (cases v; cases f) (auto simp: do_formatting_def split: sum.splits prod.splits)

lemma spec_length2:
  assumes "spec \<noteq> []" "hd spec = CHR ''.''" "last spec = CHR ''R''"
  shows "2 \<le> length spec"
proof (cases spec)
  case Nil with assms show ?thesis by simp
next
  case (Cons a as)
  with assms show ?thesis by (cases as) auto
qed


text \<open>The steps before the \<^verbatim>\<open>try\<close> raise only in the rounding branch.\<close>

lemma format_args_Inl_iff:
  "format_args v f = Inl e \<longleftrightarrow>
     f \<noteq> [] \<and> hd f = CHR ''.'' \<and> last f = CHR ''R'' \<and>
     (\<exists>x. v = PyInt x \<and>
          (int_of_char (f ! 1) = Inl e \<or>
           (\<exists>n. int_of_char (f ! 1) = Inr n) \<and> x = 0 \<and> e = ValueError))"
proof (cases "f \<noteq> [] \<and> hd f = CHR ''.'' \<and> last f = CHR ''R''")
  case True
  then have len: "\<not> length f < 2" using spec_length2[of f] by simp
  show ?thesis
  proof (cases v)
    case (PyInt x)
    with True len show ?thesis
      by (cases "int_of_char (f ! 1)") (auto simp: format_args_def)
  next
    case (PyFloat x)
    with True show ?thesis by (auto simp: format_args_def)
  next
    case (PyStr s)
    with True show ?thesis by (auto simp: format_args_def)
  qed
next
  case False
  then show ?thesis
    by (cases v) (auto simp: format_args_def split: if_splits)
qed

text \<open>
  C1. The claim: \<^verbatim>\<open>_do_formatting\<close> never propagates an error. The code rounds before
  the \<^verbatim>\<open>try\<close> statement, so the ValueError of \<^verbatim>\<open>log10(0)\<close> (value 0 with the round
  marker) and of \<^verbatim>\<open>int('R')\<close> (no digit after the dot) reach the caller.
\<close>

theorem do_formatting_raises:
  "do_formatting h (PyInt 0) ''.2R'' = Inl ValueError \<and>
   do_formatting h (PyInt 5) ''.R'' = Inl ValueError"
  by (simp add: do_formatting_def format_args_def int_of_char_def)







text \<open>
  C5. With an empty format specification the default follows the type of the value: an
  integer is rendered with thousands separators (\<^verbatim>\<open>','\<close>), a float in fixed-point
  notation (\<^verbatim>\<open>'f'\<close>), and a string is returned unchanged (\<^verbatim>\<open>'s'\<close>).
\<close>

theorem do_formatting_default:
  "format_args (PyInt i) [] = Inr (PyInt i, '','') \<and>
   do_formatting h (PyInt i) [] = Inr (format_thousands i) \<and>
   format_args (PyFloat x) [] = Inr (PyFloat x, ''f'') \<and>
   do_formatting h (PyFloat x) [] = Inr (float_fixed h x) \<and>
   format_args (PyStr s) [] = Inr (PyStr s, ''s'') \<and>
   do_formatting h (PyStr s) [] = Inr s"
  by (simp add: do_formatting_def format_args_empty)



section \<open>Properties of loops and statements\<close>

lemma keepsD: "keeps obs c \<Longrightarrow> c s = (r, s') \<Longrightarrow> obs s' = obs s"
  unfolding keeps_def by (metis snd_conv)

lemma for_each_append:
  "for_each (xs @ ys) body s =
     (case for_each xs body s of
        (None, s') \<Rightarrow> for_each ys body s'
      | (Some e, s') \<Rightarrow> (Some e, s'))"
  by (induction xs arbitrary: s) (auto split: prod.splits option.splits)

lemma for_each_map: "for_each (map g xs) body s = for_each xs (\<lambda>x. body (g x)) s"
  by (induction xs arbitrary: s) (auto split: prod.splits option.splits)

lemma for_each_nested:
  "for_each xs (\<lambda>x. for_each ys (\<lambda>y. f (x, y))) s = for_each (List.product xs ys) f s"
  by (induction xs arbitrary: s)
     (auto simp: for_each_append for_each_map split: prod.splits option.splits)

lemma keeps_for_each:
  assumes "\<And>x. x \<in> set xs \<Longrightarrow> keeps obs (body x)"
  shows "keeps obs (for_each xs body)"
  unfolding keeps_def
proof
  fix s
  show "obs (snd (for_each xs body s)) = obs s"
    using assms
  proof (induction xs arbitrary: s)
    case Nil
    show ?case by simp
  next
    case (Cons x xs)
    obtain r s1 where b: "body x s = (r, s1)" by (cases "body x s")
    have o1: "obs s1 = obs s" using Cons.prems[of x] b by (auto dest: keepsD)
    show ?case
    proof (cases r)
      case None
      have "obs (snd (for_each xs body s1)) = obs s1"
        using Cons.IH Cons.prems by simp
      with None b o1 show ?thesis by simp
    next
      case (Some e)
      with b o1 show ?thesis by simp
    qed
  qed
qed

lemma keeps_block: "(\<And>c. c \<in> set cs \<Longrightarrow> keeps obs c) \<Longrightarrow> keeps obs (block cs)"
  unfolding block_def by (rule keeps_for_each)

lemma keeps_run_if: "keeps obs c \<Longrightarrow> keeps obs (run_if b c)"
  by (simp add: run_if_def keeps_def skip_def)

lemma ok_on_for_each:
  assumes "\<And>x. x \<in> set xs \<Longrightarrow> ok_on P (body x)"
  shows "ok_on P (for_each xs body)"
  unfolding ok_on_def
proof (intro allI impI)
  fix s
  assume "P s"
  then show "fst (for_each xs body s) = None \<and> P (snd (for_each xs body s))"
    using assms
  proof (induction xs arbitrary: s)
    case Nil
    then show ?case by simp
  next
    case (Cons x xs)
    obtain r s1 where b: "body x s = (r, s1)" by (cases "body x s")
    from Cons.prems(2)[of x] Cons.prems(1) b have r: "r = None" and p1: "P s1"
      by (auto simp: ok_on_def)
    from Cons.IH[OF p1] Cons.prems(2) b r show ?case by simp
  qed
qed

lemma ok_on_block: "(\<And>c. c \<in> set cs \<Longrightarrow> ok_on P c) \<Longrightarrow> ok_on P (block cs)"
  unfolding block_def by (rule ok_on_for_each)

lemma ok_on_run_if: "(b \<Longrightarrow> ok_on P c) \<Longrightarrow> ok_on P (run_if b c)"
  by (simp add: run_if_def ok_on_def skip_def)

lemma block_Nil: "block [] s = (None, s)"
  by (simp add: block_def)

lemma block_Cons:
  "block (c # cs) s = (case c s of (None, s') \<Rightarrow> block cs s' | (Some e, s') \<Rightarrow> (Some e, s'))"
  unfolding block_def by simp

lemma block_success:
  "block (c # cs) s = (None, s') \<longleftrightarrow> (\<exists>s1. c s = (None, s1) \<and> block cs s1 = (None, s'))"
  by (auto simp: block_Cons split: prod.splits option.splits)

subsection \<open>What the primitive statements keep\<close>

lemma keeps_frame_modify_cell: "keeps frame (modify_cell r c f)"
  by (simp add: keeps_def modify_cell_def frame_def)

lemma keeps_frame_write_text: "keeps frame (write_text v key x)"
  by (simp add: keeps_def write_text_def modify_cell_def raise_def frame_def split: sum.splits)

lemma keeps_frame_set_name: "keeps frame (set_name n)"
  by (simp add: keeps_def set_name_def frame_def split: option.splits)

lemma keeps_frame_set_column_width: "keeps frame (set_column_width i w)"
  by (simp add: keeps_def set_column_width_def frame_def)

lemma keeps_frame_set_column_height: "keeps frame (set_column_height i w)"
  by (simp add: keeps_def set_column_height_def frame_def)

lemma keeps_texts_modify_cell:
  "(\<And>cl. cell_text (f cl) = cell_text cl) \<Longrightarrow> keeps texts (modify_cell r c f)"
  by (auto simp: keeps_def modify_cell_def texts_def fun_eq_iff)

lemma keeps_texts_set_name: "keeps texts (set_name n)"
  by (simp add: keeps_def set_name_def texts_def fun_eq_iff split: option.splits)

lemma keeps_texts_set_column_width: "keeps texts (set_column_width i w)"
  by (simp add: keeps_def set_column_width_def texts_def fun_eq_iff)

lemma keeps_texts_set_column_height: "keeps texts (set_column_height i w)"
  by (simp add: keeps_def set_column_height_def texts_def fun_eq_iff)

lemma style_keeps_text:
  "cell_text (plain_style fs cl) = cell_text cl"
  "cell_text (row_label_style fs cl) = cell_text cl"
  "cell_text (first_row_fill cl) = cell_text cl"
  "cell_text (header_style fs cl) = cell_text cl"
  by (simp_all add: plain_style_def row_label_style_def first_row_fill_def header_style_def)

lemma ok_on_modify_cell: "r < R \<Longrightarrow> c < C \<Longrightarrow> ok_on (grid R C) (modify_cell r c f)"
  by (simp add: ok_on_def grid_def modify_cell_def)

lemma ok_on_write_text:
  "fst (key x) < R \<Longrightarrow> snd (key x) < C \<Longrightarrow> v x = Inr t \<Longrightarrow> ok_on (grid R C) (write_text v key x)"
  by (simp add: ok_on_def grid_def write_text_def modify_cell_def)

lemma ok_on_set_name: "ok_on (grid R C) (set_name n)"
  by (simp add: ok_on_def grid_def set_name_def split: option.splits)

lemma ok_on_set_column_width: "i < C \<Longrightarrow> ok_on (grid R C) (set_column_width i w)"
  by (simp add: ok_on_def grid_def set_column_width_def)

lemma ok_on_set_column_height: "i < C \<Longrightarrow> ok_on (grid R C) (set_column_height i w)"
  by (simp add: ok_on_def grid_def set_column_height_def)

lemma write_loop:
  assumes "for_each xs (write_text v key) s = (None, s')"
  shows "(\<forall>x\<in>set xs. fst (key x) < table_rows s \<and> snd (key x) < table_cols s \<and> (\<exists>t. v x = Inr t)) \<and>
         (inj_on key (set xs) \<longrightarrow> (\<forall>x\<in>set xs. v x = Inr (texts s' (key x)))) \<and>
         (\<forall>k. k \<notin> key ` set xs \<longrightarrow> texts s' k = texts s k)"
  using assms
proof (induction xs arbitrary: s)
  case Nil
  then show ?case by simp
next
  case (Cons x xs)
  define s1 where "s1 = snd (write_text v key x s)"
  from Cons.prems have hd: "write_text v key x s = (None, s1)"
    and rest: "for_each xs (write_text v key) s1 = (None, s')"
    by (auto simp: s1_def split: prod.splits option.splits)
  from hd obtain t where vx: "v x = Inr t"
    and rng: "fst (key x) < table_rows s" "snd (key x) < table_cols s"
    and s1: "s1 = s\<lparr>table_cells := (table_cells s)(key x := set_text t (table_cells s (key x)))\<rparr>"
    by (auto simp: write_text_def modify_cell_def raise_def split: sum.splits if_splits)
  have dims: "table_rows s1 = table_rows s" "table_cols s1 = table_cols s"
    by (simp_all add: s1)
  have tx: "texts s1 (key x) = t" by (simp add: s1 texts_def set_text_def)
  have other: "\<And>k. k \<noteq> key x \<Longrightarrow> texts s1 k = texts s k" by (simp add: s1 texts_def)
  note IH = Cons.IH[OF rest, unfolded dims]
  have IH3: "k \<notin> key ` set xs \<Longrightarrow> texts s' k = texts s1 k" for k
    using IH by blast
  show ?case
  proof (intro conjI ballI impI allI)
    fix y assume "y \<in> set (x # xs)"
    with IH vx rng show "fst (key y) < table_rows s" "snd (key y) < table_cols s" "\<exists>t. v y = Inr t"
      by auto
  next
    fix y assume inj: "inj_on key (set (x # xs))" and y: "y \<in> set (x # xs)"
    from inj have inj': "inj_on key (set xs)" by (simp add: inj_on_def)
    show "v y = Inr (texts s' (key y))"
    proof (cases "y \<in> set xs")
      case True
      with IH inj' show ?thesis by blast
    next
      case False
      with y have yx: "y = x" by simp
      have "key x \<notin> key ` set xs"
      proof
        assume "key x \<in> key ` set xs"
        then obtain z where z: "z \<in> set xs" "key z = key x" by auto
        with inj have "z = x" by (auto simp: inj_on_def)
        with z False yx show False by simp
      qed
      then have "texts s' (key x) = texts s1 (key x)" by (rule IH3)
      with tx vx yx show ?thesis by simp
    qed
  next
    fix k assume k: "k \<notin> key ` set (x # xs)"
    then have "k \<noteq> key x" "k \<notin> key ` set xs" by auto
    with IH3[of k] other[of k] show "texts s' k = texts s k" by simp
  qed
qed

lemma keeps_block_Nil: "keeps obs (block [])"
  by (simp add: keeps_def block_Nil)

lemma keeps_block_Cons: "keeps obs c \<Longrightarrow> keeps obs (block cs) \<Longrightarrow> keeps obs (block (c # cs))"
  unfolding keeps_def
proof
  fix s
  assume c: "\<forall>s. obs (snd (c s)) = obs s" and cs: "\<forall>s. obs (snd (block cs s)) = obs s"
  obtain r s1 where b: "c s = (r, s1)" by (cases "c s")
  with c have o1: "obs s1 = obs s" by (metis snd_conv)
  show "obs (snd (block (c # cs) s)) = obs s"
    using b o1 cs by (cases r) (simp_all add: block_Cons)
qed

lemma ok_on_block_Nil: "ok_on P (block [])"
  by (simp add: ok_on_def block_Nil)

lemma ok_on_block_Cons: "ok_on P c \<Longrightarrow> ok_on P (block cs) \<Longrightarrow> ok_on P (block (c # cs))"
  unfolding ok_on_def
proof (intro allI impI)
  fix s
  assume c: "\<forall>s. P s \<longrightarrow> fst (c s) = None \<and> P (snd (c s))"
    and cs: "\<forall>s. P s \<longrightarrow> fst (block cs s) = None \<and> P (snd (block cs s))" and p: "P s"
  obtain r s1 where b: "c s = (r, s1)" by (cases "c s")
  with c p have "r = None" "P s1" by auto
  with cs b show "fst (block (c # cs) s) = None \<and> P (snd (block (c # cs) s))"
    by (simp add: block_Cons)
qed

lemma keeps_widths_cells:
  "keeps column_width (modify_cell r c f)" "keeps column_height (modify_cell r c f)"
  "keeps column_width (write_text v key x)" "keeps column_height (write_text v key x)"
  "keeps column_width (set_name n)" "keeps column_height (set_name n)"
  "keeps column_width (set_column_height i w)" "keeps column_height (set_column_width i w)"
  by (simp_all add: keeps_def modify_cell_def write_text_def raise_def set_name_def
      set_column_height_def set_column_width_def split: sum.splits option.splits)

lemmas keeps_intros = keeps_block_Nil keeps_block_Cons keeps_for_each keeps_run_if
  keeps_frame_modify_cell keeps_frame_write_text keeps_frame_set_name
  keeps_frame_set_column_width keeps_frame_set_column_height keeps_widths_cells
  keeps_texts_set_name keeps_texts_set_column_width keeps_texts_set_column_height

lemma keeps_frame_table_body: "keeps frame (table_body h df a)"
  unfolding table_body_def transposed_body_def vertical_body_def assign_col_widths_def
    assign_col_heights_def Let_def
  by (cases "arg_transposed a") (auto intro!: keeps_intros)


lemma keeps_widths_assign:
  "keeps column_width (assign_col_heights hs)" "keeps column_height (assign_col_widths ws)"
  unfolding assign_col_widths_def assign_col_heights_def
  by (auto intro!: keeps_intros)

lemma keeps_texts_style:
  "keeps texts (run_if b (block
           [for_each xs (\<lambda>i. for_each ys (\<lambda>j. modify_cell i j (plain_style fs))),
            for_each xs' (\<lambda>i. modify_cell i 0 (row_label_style fs)),
            for_each ys' (\<lambda>j. modify_cell 0 (j + 1) first_row_fill)]))"
  "keeps texts (run_if b (block
           [for_each xs (\<lambda>i. for_each ys (\<lambda>j. modify_cell i j (plain_style fs))),
            for_each ys' (\<lambda>j. modify_cell 0 j (header_style fs))]))"
  by (auto intro!: keeps_intros keeps_texts_modify_cell simp: style_keeps_text)

lemma keeps_texts_assign:
  "keeps texts (run_if b (assign_col_widths ws))" "keeps texts (run_if b (assign_col_heights hs))"
  unfolding assign_col_widths_def assign_col_heights_def
  by (auto intro!: keeps_intros)





section \<open>Properties of \<^verbatim>\<open>df_to_table\<close>\<close>

lemma block_Nil_success: "block [] s = (None, s') \<longleftrightarrow> s' = s"
  by (auto simp: block_Nil)

lemma in_set_enumerate0: "(i, n) \<in> set (enumerate 0 ns) \<longleftrightarrow> i < length ns \<and> n = ns ! i"
  by (auto simp: in_set_enumerate_eq)

lemma vertical_body_texts:
  assumes run: "vertical_body h df a s = (None, s')"
  defines "names \<equiv> (case arg_colnames a of None \<Rightarrow> df_columns df | Some ns \<Rightarrow> ns)"
  shows "(\<forall>row < fst (df_shape df). \<forall>col < snd (df_shape df).
            cell_text_of h df (arg_col_formatters a) row col = Inr (texts s' (row + 1, col))) \<and>
         (\<forall>i < length names. texts s' (0, i) = names ! i)"
proof -
  define V where "V = (\<lambda>(r, c). cell_text_of h df (arg_col_formatters a) r c)"
  define K :: "nat \<times> nat \<Rightarrow> nat \<times> nat" where "K = (\<lambda>(r, c). (r + 1, c))"
  define NV :: "nat \<times> string \<Rightarrow> exn + string" where "NV = (\<lambda>(i, n). Inr n)"
  define NK :: "nat \<times> string \<Rightarrow> nat \<times> nat" where "NK = (\<lambda>(i, n). (0, i))"
  let ?rows = "fst (df_shape df)" and ?cols = "snd (df_shape df)"
  from run obtain t1 t2 t3 where
    n: "for_each (enumerate 0 names) (write_text NV NK) s = (None, t1)" and
    d: "for_each [0..<?rows] (\<lambda>row. for_each [0..<?cols] (\<lambda>col. write_text V K (row, col))) t1 = (None, t2)" and
    nm: "set_name (arg_name a) t2 = (None, t3)" and
    st: "run_if (\<not> arg_white_backgr a) (block
           [for_each [0..<?rows + 1] (\<lambda>i. for_each [0..<?cols]
              (\<lambda>j. modify_cell i j (plain_style (arg_font_size a)))),
            for_each [0..<?cols] (\<lambda>j. modify_cell 0 j (header_style (arg_font_size a)))]) t3 = (None, s')"
    unfolding vertical_body_def Let_def names_def V_def K_def NV_def NK_def
    by (auto simp: block_success block_Nil_success)
  have tx: "texts s' = texts t2"
    using keepsD[OF keeps_texts_style(2) st] keepsD[OF keeps_texts_set_name nm] by simp
  from d have d': "for_each (List.product [0..<?rows] [0..<?cols]) (write_text V K) t1 = (None, t2)"
    by (simp add: for_each_nested[of _ _ "write_text V K"])
  have injK: "inj_on K A" for A by (auto simp: inj_on_def K_def)
  have injN: "inj_on NK (set (enumerate 0 names))"
    by (auto simp: inj_on_def NK_def in_set_enumerate0)
  from write_loop[OF d'] injK
  have data: "\<forall>x\<in>set (List.product [0..<?rows] [0..<?cols]). V x = Inr (texts t2 (K x))"
    and keep: "\<forall>k. k \<notin> K ` set (List.product [0..<?rows] [0..<?cols]) \<longrightarrow> texts t2 k = texts t1 k"
    by blast+
  from write_loop[OF n] injN
  have lab: "\<forall>x\<in>set (enumerate 0 names). NV x = Inr (texts t1 (NK x))" by blast
  show ?thesis
  proof (intro conjI allI impI)
    fix row col assume "row < ?rows" "col < ?cols"
    then have "(row, col) \<in> set (List.product [0..<?rows] [0..<?cols])" by simp
    with data have "V (row, col) = Inr (texts t2 (K (row, col)))" by blast
    then show "cell_text_of h df (arg_col_formatters a) row col = Inr (texts s' (row + 1, col))"
      by (simp add: V_def K_def tx)
  next
    fix i assume i: "i < length names"
    then have "(i, names ! i) \<in> set (enumerate 0 names)" by (simp add: in_set_enumerate0)
    with lab have "NV (i, names ! i) = Inr (texts t1 (NK (i, names ! i)))" by blast
    then have a: "texts t1 (0, i) = names ! i" by (simp add: NV_def NK_def)
    have "(0, i) \<notin> K ` set (List.product [0..<?rows] [0..<?cols])" by (auto simp: K_def)
    with keep have "texts t2 (0, i) = texts t1 (0, i)" by blast
    with a tx show "texts s' (0, i) = names ! i" by simp
  qed
qed

lemma transposed_body_texts:
  assumes run: "transposed_body h df a s = (None, s')"
  defines "names \<equiv> (case arg_rownames a of None \<Rightarrow> df_index df | Some ns \<Rightarrow> ns)"
  shows "(\<forall>row < fst (df_shape df). \<forall>col < snd (df_shape df).
            cell_text_of h df (arg_col_formatters a) row col = Inr (texts s' (row, col + 1))) \<and>
         (\<forall>i < length names. texts s' (i, 0) = names ! i)"
proof -
  define V where "V = (\<lambda>(r, c). cell_text_of h df (arg_col_formatters a) r c)"
  define K :: "nat \<times> nat \<Rightarrow> nat \<times> nat" where "K = (\<lambda>(r, c). (r, c + 1))"
  define NV :: "nat \<times> string \<Rightarrow> exn + string" where "NV = (\<lambda>(i, n). Inr n)"
  define NK :: "nat \<times> string \<Rightarrow> nat \<times> nat" where "NK = (\<lambda>(i, n). (i, 0))"
  let ?rows = "fst (df_shape df)" and ?cols = "snd (df_shape df)"
  from run obtain t1 t2 t3 where
    n: "for_each (enumerate 0 names) (write_text NV NK) s = (None, t1)" and
    d: "for_each [0..<?rows] (\<lambda>row. for_each [0..<?cols] (\<lambda>col. write_text V K (row, col))) t1 = (None, t2)" and
    nm: "set_name (arg_name a) t2 = (None, t3)" and
    st: "run_if (\<not> arg_white_backgr a) (block
           [for_each [0..<?rows] (\<lambda>i. for_each [0..<?cols + 1]
              (\<lambda>j. modify_cell i j (plain_style (arg_font_size a)))),
            for_each [0..<?rows] (\<lambda>i. modify_cell i 0 (row_label_style (arg_font_size a))),
            for_each [0..<?cols] (\<lambda>j. modify_cell 0 (j + 1) first_row_fill)]) t3 = (None, s')"
    unfolding transposed_body_def Let_def names_def V_def K_def NV_def NK_def
    by (auto simp: block_success block_Nil_success)
  have tx: "texts s' = texts t2"
    using keepsD[OF keeps_texts_style(1) st] keepsD[OF keeps_texts_set_name nm] by simp
  from d have d': "for_each (List.product [0..<?rows] [0..<?cols]) (write_text V K) t1 = (None, t2)"
    by (simp add: for_each_nested[of _ _ "write_text V K"])
  have injK: "inj_on K A" for A by (auto simp: inj_on_def K_def)
  have injN: "inj_on NK (set (enumerate 0 names))"
    by (auto simp: inj_on_def NK_def in_set_enumerate0)
  from write_loop[OF d'] injK
  have data: "\<forall>x\<in>set (List.product [0..<?rows] [0..<?cols]). V x = Inr (texts t2 (K x))"
    and keep: "\<forall>k. k \<notin> K ` set (List.product [0..<?rows] [0..<?cols]) \<longrightarrow> texts t2 k = texts t1 k"
    by blast+
  from write_loop[OF n] injN
  have lab: "\<forall>x\<in>set (enumerate 0 names). NV x = Inr (texts t1 (NK x))" by blast
  show ?thesis
  proof (intro conjI allI impI)
    fix row col assume "row < ?rows" "col < ?cols"
    then have "(row, col) \<in> set (List.product [0..<?rows] [0..<?cols])" by simp
    with data have "V (row, col) = Inr (texts t2 (K (row, col)))" by blast
    then show "cell_text_of h df (arg_col_formatters a) row col = Inr (texts s' (row, col + 1))"
      by (simp add: V_def K_def tx)
  next
    fix i assume i: "i < length names"
    then have "(i, names ! i) \<in> set (enumerate 0 names)" by (simp add: in_set_enumerate0)
    with lab have "NV (i, names ! i) = Inr (texts t1 (NK (i, names ! i)))" by blast
    then have a: "texts t1 (i, 0) = names ! i" by (simp add: NV_def NK_def)
    have "(i, 0) \<notin> K ` set (List.product [0..<?rows] [0..<?cols])" by (auto simp: K_def)
    with keep have "texts t2 (i, 0) = texts t1 (i, 0)" by blast
    with a tx show "texts s' (i, 0) = names ! i" by simp
  qed
qed

lemma ok_on_write_text_ex:
  "fst (key x) < R \<Longrightarrow> snd (key x) < C \<Longrightarrow> \<exists>t. v x = Inr t \<Longrightarrow> ok_on (grid R C) (write_text v key x)"
  by (auto intro: ok_on_write_text)

lemmas ok_intros = ok_on_block_Nil ok_on_block_Cons ok_on_for_each ok_on_run_if ok_on_set_name

lemma vertical_body_ok:
  assumes "length (case arg_colnames a of None \<Rightarrow> df_columns df | Some ns \<Rightarrow> ns) \<le> snd (df_shape df)"
    and "\<forall>row < fst (df_shape df). \<forall>col < snd (df_shape df).
           \<exists>t. cell_text_of h df (arg_col_formatters a) row col = Inr t"
  shows "ok_on (grid (fst (df_shape df) + 1) (snd (df_shape df))) (vertical_body h df a)"
  unfolding vertical_body_def Let_def
  using assms
  by (intro ok_intros ok_on_write_text_ex ok_on_modify_cell)
     (auto simp: in_set_enumerate0)

lemma transposed_body_ok:
  assumes "length (case arg_rownames a of None \<Rightarrow> df_index df | Some ns \<Rightarrow> ns) \<le> fst (df_shape df)"
    and "\<forall>row < fst (df_shape df). \<forall>col < snd (df_shape df).
           \<exists>t. cell_text_of h df (arg_col_formatters a) row col = Inr t"
    and "\<not> arg_white_backgr a \<Longrightarrow> 0 < snd (df_shape df) \<Longrightarrow> 0 < fst (df_shape df)"
  shows "ok_on (grid (fst (df_shape df)) (snd (df_shape df) + 1)) (transposed_body h df a)"
  unfolding transposed_body_def Let_def
  using assms
  by (intro ok_intros ok_on_write_text_ex ok_on_modify_cell)
     (auto simp: in_set_enumerate0)

lemma assign_ok:
  "length ws \<le> C \<Longrightarrow> ok_on (grid R C) (assign_col_widths ws)"
  "length hs \<le> C \<Longrightarrow> ok_on (grid R C) (assign_col_heights hs)"
  unfolding assign_col_widths_def assign_col_heights_def
  by (auto intro!: ok_intros ok_on_set_column_width ok_on_set_column_height)

lemma grid_new_table:
  "grid (if arg_transposed a then fst (df_shape df) else fst (df_shape df) + 1)
        (if arg_transposed a then snd (df_shape df) + 1 else snd (df_shape df)) (new_table df a)"
  by (simp add: grid_def new_table_def add_table_def Let_def)

lemma frame_new_table:
  "frame (new_table df a) =
     (process_position_parameter (arg_left a), process_position_parameter (arg_top a),
      process_position_parameter (arg_width a), process_position_parameter (arg_height a),
      (if arg_transposed a then fst (df_shape df) else fst (df_shape df) + 1),
      (if arg_transposed a then snd (df_shape df) + 1 else snd (df_shape df)))"
  by (simp add: frame_def new_table_def add_table_def Let_def)


text \<open>Sufficient conditions for a call to return.\<close>

lemma table_body_ok:
  assumes "length (if arg_transposed a
                   then (case arg_rownames a of None \<Rightarrow> df_index df | Some ns \<Rightarrow> ns)
                   else (case arg_colnames a of None \<Rightarrow> df_columns df | Some ns \<Rightarrow> ns))
           \<le> (if arg_transposed a then fst (df_shape df) else snd (df_shape df))"
    and "\<forall>row < fst (df_shape df). \<forall>col < snd (df_shape df).
           \<exists>t. cell_text_of h df (arg_col_formatters a) row col = Inr t"
    and "arg_transposed a \<Longrightarrow> \<not> arg_white_backgr a \<Longrightarrow> 0 < snd (df_shape df) \<Longrightarrow> 0 < fst (df_shape df)"
    and "arg_set_col_width a \<Longrightarrow> length (arg_col_width a) \<le> snd (df_shape df)"
    and "arg_set_col_height a \<Longrightarrow> length (arg_col_height a) \<le> snd (df_shape df)"
  shows "\<exists>t. table_body h df a (new_table df a) = (None, t)"
proof -
  let ?R = "if arg_transposed a then fst (df_shape df) else fst (df_shape df) + 1"
  let ?C = "if arg_transposed a then snd (df_shape df) + 1 else snd (df_shape df)"
  have body: "ok_on (grid ?R ?C) (if arg_transposed a then transposed_body h df a else vertical_body h df a)"
    using assms(1-3) vertical_body_ok[where a=a and df=df and h=h] transposed_body_ok[where a=a and df=df and h=h]
    by (cases "arg_transposed a") simp_all
  have w: "ok_on (grid ?R ?C) (run_if (arg_set_col_width a) (assign_col_widths (arg_col_width a)))"
    using assms(4) by (intro ok_on_run_if assign_ok) auto
  have hh: "ok_on (grid ?R ?C) (run_if (arg_set_col_height a) (assign_col_heights (arg_col_height a)))"
    using assms(5) by (intro ok_on_run_if assign_ok) auto
  have "ok_on (grid ?R ?C) (table_body h df a)"
    unfolding table_body_def by (intro ok_on_block_Cons ok_on_block_Nil body w hh)
  with grid_new_table[where a=a and df=df] have "fst (table_body h df a (new_table df a)) = None"
    unfolding ok_on_def by blast
  then show ?thesis by (cases "table_body h df a (new_table df a)") simp
qed

lemma table_body_success:
  "table_body h df a s = (None, s') \<longleftrightarrow>
     (\<exists>s1 s2. (if arg_transposed a then transposed_body h df a else vertical_body h df a) s = (None, s1) \<and>
              run_if (arg_set_col_width a) (assign_col_widths (arg_col_width a)) s1 = (None, s2) \<and>
              run_if (arg_set_col_height a) (assign_col_heights (arg_col_height a)) s2 = (None, s'))"
  by (simp add: table_body_def block_success block_Nil_success)

lemma table_body_texts:
  assumes "table_body h df a s = (None, s')"
  shows "(\<forall>row < fst (df_shape df). \<forall>col < snd (df_shape df).
            cell_text_of h df (arg_col_formatters a) row col =
              Inr (texts s' (if arg_transposed a then (row, col + 1) else (row + 1, col)))) \<and>
         (arg_transposed a \<longrightarrow>
            (\<forall>i < length (case arg_rownames a of None \<Rightarrow> df_index df | Some ns \<Rightarrow> ns).
               texts s' (i, 0) = (case arg_rownames a of None \<Rightarrow> df_index df | Some ns \<Rightarrow> ns) ! i)) \<and>
         (\<not> arg_transposed a \<longrightarrow>
            (\<forall>i < length (case arg_colnames a of None \<Rightarrow> df_columns df | Some ns \<Rightarrow> ns).
               texts s' (0, i) = (case arg_colnames a of None \<Rightarrow> df_columns df | Some ns \<Rightarrow> ns) ! i))"
proof -
  from assms obtain s1 s2 where
    b: "(if arg_transposed a then transposed_body h df a else vertical_body h df a) s = (None, s1)" and
    w: "run_if (arg_set_col_width a) (assign_col_widths (arg_col_width a)) s1 = (None, s2)" and
    hh: "run_if (arg_set_col_height a) (assign_col_heights (arg_col_height a)) s2 = (None, s')"
    by (auto simp: table_body_success)
  have tx: "texts s' = texts s1"
    using keepsD[OF keeps_texts_assign(1) w] keepsD[OF keeps_texts_assign(2) hh] by simp
  show ?thesis
  proof (cases "arg_transposed a")
    case True
    with b have "transposed_body h df a s = (None, s1)" by simp
    from transposed_body_texts[OF this] True show ?thesis by (simp add: tx)
  next
    case False
    with b have "vertical_body h df a s = (None, s1)" by simp
    from vertical_body_texts[OF this] False show ?thesis by (simp add: tx)
  qed
qed



lemma table_body_frame:
  "table_body h df a s = (r, s') \<Longrightarrow> frame s' = frame s"
  by (rule keepsD[OF keeps_frame_table_body])

lemmas run_defs = df_to_table_def table_body_def new_table_def add_table_def block_def run_if_def
  vertical_body_def transposed_body_def df_shape_def write_text_def modify_cell_def set_name_def
  cell_text_of_def matrix_get_def skip_def raise_def enumerate_eq_zip assign_col_widths_def
  assign_col_heights_def set_text_def plain_style_def header_style_def row_label_style_def
  first_row_fill_def set_column_width_def set_column_height_def texts_def
  default_args_def example_df_def example_world_def Let_def

lemma str_int_examples:
  "str_int 1000 = ''1000''" "str_int 2 = ''2''" "str_int 3 = ''3''" "str_int 4 = ''4''"
  by (simp_all add: str_int_def str_nat.simps digit_char_def)

lemma format_thousands_thousand: "format_thousands 1000 = ''1,000''"
  by (simp add: format_thousands_def group3_def str_nat.simps digit_char_def)

lemma example_call_returns: "fst (df_to_table strict_host default_args example_world) = Inr 0"
  by (simp add: run_defs)




text \<open>
  C2, as stated: without \<^verbatim>\<open>col_formatters\<close> the data cells would hold each integer with
  thousands separators. For the value 1000 the cell holds \<^verbatim>\<open>'1000'\<close>, not \<^verbatim>\<open>'1,000'\<close>.
\<close>

theorem thousands_separator_counterexample:
  "texts (w_slide (snd (df_to_table strict_host (default_args\<lparr>arg_colnames := Some [''A'', ''B'']\<rparr>)
            example_world)) ! 0) (1, 0) = ''1000'' \<and>
   format_thousands 1000 = ''1,000'' \<and>
   texts (w_slide (snd (df_to_table strict_host (default_args\<lparr>arg_colnames := Some [''A'', ''B'']\<rparr>)
            example_world)) ! 0) (1, 0) \<noteq> format_thousands 1000"
proof -
  have "texts (w_slide (snd (df_to_table strict_host (default_args\<lparr>arg_colnames := Some [''A'', ''B'']\<rparr>)
            example_world)) ! 0) (1, 0) = str_int 1000"
    by (simp add: run_defs)
  then show ?thesis by (simp add: str_int_examples format_thousands_thousand)
qed

text \<open>
  C2, amended. For every two-by-two data frame of integers, \<^verbatim>\<open>df_to_table\<close> without
  \<^verbatim>\<open>col_formatters\<close> returns, and the new table holds in its four data cells the plain
  decimal string \<^verbatim>\<open>str(val)\<close> of each integer, with no separators; the first row
  holds the supplied column names (when transposed, the first column holds the supplied
  row names and the data cells follow it).
\<close>

theorem df_to_table_two_by_two:
  assumes vals: "df_values (w_df w) = [[PyInt x00, PyInt x01], [PyInt x10, PyInt x11]]"
    and idx: "length (df_index (w_df w)) = 2" and cols: "length (df_columns (w_df w)) = 2"
    and cf: "arg_col_formatters a = None"
    and cn: "\<not> arg_transposed a \<longrightarrow> arg_colnames a = Some [n0, n1]"
    and rn: "arg_transposed a \<longrightarrow> arg_rownames a = Some [n0, n1]"
    and cw: "arg_set_col_width a \<longrightarrow> length (arg_col_width a) \<le> 2"
    and ch: "arg_set_col_height a \<longrightarrow> length (arg_col_height a) \<le> 2"
  shows "\<exists>t. df_to_table h a w = (Inr (length (w_slide w)), w\<lparr>w_slide := w_slide w @ [t]\<rparr>) \<and>
     (if arg_transposed a
      then table_rows t = 2 \<and> table_cols t = 3 \<and> texts t (0, 0) = n0 \<and> texts t (1, 0) = n1 \<and>
           texts t (0, 1) = str_int x00 \<and> texts t (0, 2) = str_int x01 \<and>
           texts t (1, 1) = str_int x10 \<and> texts t (1, 2) = str_int x11
      else table_rows t = 3 \<and> table_cols t = 2 \<and> texts t (0, 0) = n0 \<and> texts t (0, 1) = n1 \<and>
           texts t (1, 0) = str_int x00 \<and> texts t (1, 1) = str_int x01 \<and>
           texts t (2, 0) = str_int x10 \<and> texts t (2, 1) = str_int x11)"
proof -
  let ?df = "w_df w"
  have sh: "fst (df_shape ?df) = 2" "snd (df_shape ?df) = 2"
    by (simp_all add: df_shape_def idx cols)
  have ct: "cell_text_of h ?df (arg_col_formatters a) 0 0 = Inr (str_int x00)"
           "cell_text_of h ?df (arg_col_formatters a) 0 1 = Inr (str_int x01)"
           "cell_text_of h ?df (arg_col_formatters a) 1 0 = Inr (str_int x10)"
           "cell_text_of h ?df (arg_col_formatters a) 1 1 = Inr (str_int x11)"
    by (simp_all add: cell_text_of_def matrix_get_def vals cf)
  have all: "\<forall>row < fst (df_shape ?df). \<forall>col < snd (df_shape ?df).
               \<exists>t. cell_text_of h ?df (arg_col_formatters a) row col = Inr t"
    unfolding sh using ct by (auto simp: less_2_cases_iff)
  have nm: "length (if arg_transposed a
                    then (case arg_rownames a of None \<Rightarrow> df_index ?df | Some ns \<Rightarrow> ns)
                    else (case arg_colnames a of None \<Rightarrow> df_columns ?df | Some ns \<Rightarrow> ns))
            \<le> (if arg_transposed a then fst (df_shape ?df) else snd (df_shape ?df))"
    using cn rn by (simp add: sh)
  have "\<exists>t. table_body h ?df a (new_table ?df a) = (None, t)"
    by (rule table_body_ok[OF nm all]) (use cw ch in \<open>simp_all add: sh\<close>)
  then obtain t where run: "table_body h ?df a (new_table ?df a) = (None, t)" ..
  have call: "df_to_table h a w = (Inr (length (w_slide w)), w\<lparr>w_slide := w_slide w @ [t]\<rparr>)"
    using run by (simp add: df_to_table_def)
  from table_body_frame[OF run] frame_new_table[where a=a and df="?df"]
  have dims: "table_rows t = (if arg_transposed a then 2 else 3)"
             "table_cols t = (if arg_transposed a then 3 else 2)"
    by (auto simp: frame_def sh)
  note tx = table_body_texts[OF run, unfolded sh]
  have data: "cell_text_of h ?df (arg_col_formatters a) row col =
                Inr (texts t (if arg_transposed a then (row, col + 1) else (row + 1, col)))"
    if "row < 2" "col < 2" for row col
    using tx that by blast
  have lab_t: "texts t (i, 0) = [n0, n1] ! i" if "arg_transposed a" "i < 2" for i
    using tx that rn by auto
  have lab_v: "texts t (0, i) = [n0, n1] ! i" if "\<not> arg_transposed a" "i < 2" for i
    using tx that cn by auto
  show ?thesis
  proof (cases "arg_transposed a")
    case True
    from data[of 0 0] data[of 0 1] data[of 1 0] data[of 1 1] lab_t[OF True, of 0] lab_t[OF True, of 1]
    show ?thesis using True call dims ct by (intro exI[of _ t]) (simp add: numeral_2_eq_2)
  next
    case False
    from data[of 0 0] data[of 0 1] data[of 1 0] data[of 1 1] lab_v[OF False, of 0] lab_v[OF False, of 1]
    show ?thesis using False call dims ct by (intro exI[of _ t]) (simp add: numeral_2_eq_2)
  qed
qed

theorem df_to_table_two_by_two_witness:
  "\<exists>t. df_to_table strict_host (default_args\<lparr>arg_colnames := Some [''A'', ''B'']\<rparr>)
          example_world = (Inr 0, example_world\<lparr>w_slide := [t]\<rparr>) \<and>
       table_rows t = 3 \<and> table_cols t = 2 \<and> texts t (0, 0) = ''A'' \<and> texts t (0, 1) = ''B'' \<and>
       texts t (1, 0) = ''1000'' \<and> texts t (1, 1) = ''2'' \<and>
       texts t (2, 0) = ''3'' \<and> texts t (2, 1) = ''4''"
  using df_to_table_two_by_two[of example_world 1000 2 3 4
      "default_args\<lparr>arg_colnames := Some [''A'', ''B'']\<rparr>" "''A''" "''B''" strict_host]
  by (simp add: example_world_def example_df_def default_args_def str_int_examples)








end
